theory Spec2Isabelle
  imports Complex_Main
begin

section \<open>The video splitter: data model\<close>

text \<open>
  The program is one React component, \<open>VideoSplitter\<close>. Its state cells
  (\<open>useState\<close>), the job id reference (\<open>useRef\<close>) and the effects it has on the
  outside (HTTP requests, calls of \<open>setProgress\<close>) are the fields of one record; every
  handler is a function from that record to that record. A handler that suspends at an
  \<open>await\<close> is cut there: one function for the part before, one for the continuation,
  and the value the continuation closes over is an argument of it.

  JavaScript numbers: file sizes, part numbers and loop counters are integers
  (\<open>nat\<close>); durations and progress values are doubles, and every finite double is a
  rational number (\<open>rat\<close>). Comparison, \<open>Math.ceil\<close>, \<open>i * 120\<close>, \<open>i + 0.5\<close> and
  \<open>i + 1\<close> are exact on them; the results of \<open>/\<close> and of \<open>* 100\<close> are rounded to a
  double, and the rounding is the parameter \<open>fl\<close> of the platform. A duration that is
  not a finite number is outside the model.

  The user-visible texts of the source are Japanese string literals; each is a
  constructor of \<open>message\<close>, \<open>errtext\<close> or \<open>ptext\<close>, named after what it says.
\<close>

definition SEGMENT_DURATION :: nat where
  "SEGMENT_DURATION = 120"

definition BROWSER_MAX_SIZE :: nat where
  "BROWSER_MAX_SIZE = 300 * 1024 * 1024"

definition SERVER_MAX_SIZE :: nat where
  "SERVER_MAX_SIZE = 5 * 1024 * 1024 * 1024"

definition API_BASE_URL :: string where
  "API_BASE_URL = ''https://video-splitter-api.onrender.com''"

datatype Status = Idle | Loading | Ready | Processing | Completed | Error

type_synonym bytes = "nat list"

text \<open>A \<open>File\<close> of the browser: its name, its size in bytes and its media type.\<close>

record File =
  file_name :: string
  file_size :: nat
  file_type :: string

record SplitFile =
  name :: string
  partNumber :: nat
  downloadUrl :: "string option"
  url :: "bytes option"

text \<open>
  The field \<open>url\<close> of a locally cut part is the object URL of a blob; the model keeps
  the blob's bytes in its place.
\<close>

text \<open>
  What a \<open>throw\<close> or a rejected promise carries: an \<open>Error\<close> object with its message,
  or any other value. The messages the program writes itself are the constructors
  \<open>VideoReadFailed\<close> (line 46), \<open>UploadFailed\<close> (line 112), \<open>StatusFetchFailed\<close>
  (line 125) and \<open>JobFailed\<close> (the default of line 131); \<open>FilesMissing\<close> is the
  engine's TypeError when \<open>jobStatus.files\<close> is not there, \<open>NoSuchFile\<close> the codec file
  system's error for a name that does not exist.
\<close>

datatype errtext =
    Literal string
  | VideoReadFailed
  | UploadFailed
  | StatusFetchFailed
  | JobFailed
  | FilesMissing
  | NoSuchFile

datatype thrown = ErrorObj errtext | NonError

text \<open>The operand of the two error templates: \<open>err.message\<close> when \<open>err\<close> is an \<open>Error\<close>, the "unknown error" literal otherwise.\<close>

datatype detail = Message errtext | UnknownError

fun detail_of :: "thrown \<Rightarrow> detail" where
  "detail_of (ErrorObj m) = Message m"
| "detail_of NonError = UnknownError"

text \<open>
  The texts shown to the user. \<open>SelectVideoFile\<close> is the literal of line 62,
  \<open>FileTooLarge n\<close> the template of line 68 (it prints the size \<open>n\<close> through
  \<open>formatFileSize\<close>), \<open>VideoLoadFailed\<close> line 90, \<open>NoSplitNeeded\<close> line 83,
  \<open>LargeFileUsingServer\<close> line 85, \<open>ServerProcessingError\<close> the template of line 148
  and \<open>ProcessingError\<close> that of line 211.
\<close>

datatype message =
    SelectVideoFile
  | FileTooLarge nat
  | VideoLoadFailed
  | NoSplitNeeded
  | LargeFileUsingServer
  | ServerProcessingError detail
  | ProcessingError detail

text \<open>
  The progress captions: the empty string, line 99, line 118, the template of line 135,
  line 157 and the template of line 181.
\<close>

datatype ptext =
    NoText
  | Uploading
  | ProcessingJob
  | ProcessingPercent rat
  | ReadingFile
  | Splitting nat nat

text \<open>The requests sent to the remote job service.\<close>

datatype request =
    PostSplit File
  | GetStatus string
  | DeleteJob string

record session =
  status :: Status
  error :: "message option"
  warning :: "message option"
  progress :: rat
  progressText :: ptext
  selectedFile :: "File option"
  videoDuration :: rat
  splitFiles :: "SplitFile list"
  useServerProcessing :: bool
  currentJobId :: "string option"
  requests :: "request list"
  progressLog :: "rat list"

text \<open>
  \<open>currentJobId\<close> is \<open>currentJobIdRef.current\<close>; \<open>requests\<close> lists the requests
  issued so far and \<open>progressLog\<close> every value passed to \<open>setProgress\<close>, oldest
  first. The initial state is that of the \<open>useState\<close> and \<open>useRef\<close> calls.
\<close>

definition initial :: session where
  "initial = \<lparr>status = Idle, error = None, warning = None, progress = 0,
     progressText = NoText, selectedFile = None, videoDuration = 0, splitFiles = [],
     useServerProcessing = False, currentJobId = None, requests = [], progressLog = []\<rparr>"

definition setProgress :: "rat \<Rightarrow> session \<Rightarrow> session" where
  "setProgress p s = s\<lparr>progress := p, progressLog := progressLog s @ [p]\<rparr>"

text \<open>
  The platform under the component: the media element that reports a duration (or
  fires \<open>onerror\<close>), the codec runtime behind \<open>window.FFmpeg\<close>, and the rounding of
  double arithmetic. \<open>load\<close> stands for reading \<open>window.FFmpeg\<close>, \<open>createFFmpeg\<close> and
  \<open>ffmpeg.load()\<close> together: \<open>Some e\<close> when one of them throws. \<open>run\<close> is the codec
  itself: from the arguments and the files of its file system to what it throws, if
  anything, and the files it leaves.
\<close>

record platform =
  metadata :: "File \<Rightarrow> rat option"
  load :: "thrown option"
  fetchFile :: "File \<Rightarrow> thrown + bytes"
  writeFile :: "string \<Rightarrow> bytes \<Rightarrow> thrown option"
  run :: "string list \<Rightarrow> (string \<rightharpoonup> bytes) \<Rightarrow> thrown option \<times> (string \<rightharpoonup> bytes)"
  fl :: "rat \<Rightarrow> rat"

section \<open>Selecting a file\<close>

definition startsWith :: "string \<Rightarrow> string \<Rightarrow> bool" where
  "startsWith s p = (take (length p) s = p)"

definition getVideoDuration :: "platform \<Rightarrow> File \<Rightarrow> thrown + rat" where
  "getVideoDuration pf f =
     (case metadata pf f of
        Some d \<Rightarrow> Inr d
      | None \<Rightarrow> Inl (ErrorObj VideoReadFailed))"

text \<open>
  \<open>handleFileSelect\<close> up to its \<open>await\<close>: it returns, or it waits for the duration
  with \<open>file\<close> and \<open>shouldUseServer\<close> in its closure.
\<close>

datatype select_task = Returned | AwaitDuration File bool

definition handleFileSelect_start :: "File option \<Rightarrow> session \<Rightarrow> session \<times> select_task" where
  "handleFileSelect_start picked s =
     (case picked of
        None \<Rightarrow> (s, Returned)
      | Some f \<Rightarrow>
          let s1 = setProgress 0 (s\<lparr>error := None, warning := None, splitFiles := []\<rparr>) in
          if \<not> startsWith (file_type f) ''video/'' then
            (s1\<lparr>error := Some SelectVideoFile, status := Error\<rparr>, Returned)
          else if file_size f > SERVER_MAX_SIZE then
            (s1\<lparr>error := Some (FileTooLarge (file_size f)), status := Error\<rparr>, Returned)
          else
            let s2 = s1\<lparr>selectedFile := Some f\<rparr>;
                shouldUseServer = file_size f > BROWSER_MAX_SIZE;
                s3 = s2\<lparr>useServerProcessing := shouldUseServer\<rparr>
            in (s3\<lparr>status := Loading\<rparr>, AwaitDuration f shouldUseServer))"

definition handleFileSelect_resume :: "bool \<Rightarrow> thrown + rat \<Rightarrow> session \<Rightarrow> session" where
  "handleFileSelect_resume shouldUseServer probed s =
     (case probed of
        Inl e \<Rightarrow> s\<lparr>error := Some VideoLoadFailed, status := Error\<rparr>
      | Inr duration \<Rightarrow>
          let s1 = s\<lparr>videoDuration := duration\<rparr>;
              s2 = (if duration \<le> of_nat SEGMENT_DURATION then s1\<lparr>warning := Some NoSplitNeeded\<rparr>
                    else if shouldUseServer then s1\<lparr>warning := Some LargeFileUsingServer\<rparr>
                    else s1)
          in s2\<lparr>status := Ready\<rparr>)"

text \<open>The whole handler, when nothing else runs between its two halves.\<close>

definition handleFileSelect :: "platform \<Rightarrow> File option \<Rightarrow> session \<Rightarrow> session" where
  "handleFileSelect pf picked s =
     (case handleFileSelect_start picked s of
        (s', Returned) \<Rightarrow> s'
      | (s', AwaitDuration f shouldUseServer) \<Rightarrow>
          handleFileSelect_resume shouldUseServer (getVideoDuration pf f) s')"

section \<open>Reset\<close>

text \<open>
  \<open>if (currentJobIdRef.current)\<close> tests truthiness: \<open>null\<close> and the empty string
  are false. The answer to the DELETE request is ignored and its failure swallowed, so
  the request is all the model keeps of it. The handler also empties the file input
  element, which is no part of the session.
\<close>

definition truthy :: "string option \<Rightarrow> bool" where
  "truthy j = (case j of None \<Rightarrow> False | Some v \<Rightarrow> v \<noteq> [])"

definition handleReset :: "session \<Rightarrow> session" where
  "handleReset s =
     (let s1 = (case currentJobId s of
                  None \<Rightarrow> s
                | Some j \<Rightarrow>
                    if j \<noteq> [] then s\<lparr>requests := requests s @ [DeleteJob j], currentJobId := None\<rparr>
                    else s)
      in setProgress 0
           (s1\<lparr>status := Idle, error := None, warning := None, selectedFile := None,
               videoDuration := 0, splitFiles := []\<rparr>)
           \<lparr>progressText := NoText\<rparr>)"

section \<open>What the component renders\<close>

text \<open>
  The guards of the JSX: the file picker is disabled while processing (line 270), the
  split button is there only when ready with a duration above the segment length
  (line 321), the reset button only in \<open>error\<close> and \<open>completed\<close> (line 376), and the
  list of parts only in \<open>completed\<close> (line 342).
\<close>

definition select_disabled :: "session \<Rightarrow> bool" where
  "select_disabled s = (status s = Processing)"

definition split_offered :: "session \<Rightarrow> bool" where
  "split_offered s = (status s = Ready \<and> videoDuration s > of_nat SEGMENT_DURATION)"

definition reset_offered :: "session \<Rightarrow> bool" where
  "reset_offered s = (status s = Error \<or> status s = Completed)"

definition shown_parts :: "session \<Rightarrow> SplitFile list" where
  "shown_parts s = (if status s = Completed then splitFiles s else [])"

section \<open>Splitting in the browser\<close>

text \<open>
  \<open>toString\<close> is the decimal text of a counter (\<open>Number.prototype.toString\<close> and the
  template literal on a non-negative integer).
\<close>

definition digit :: "nat \<Rightarrow> char" where
  "digit d = ''0123456789'' ! d"

fun toString :: "nat \<Rightarrow> string" where
  "toString n = (if n < 10 then [digit n] else toString (n div 10) @ [digit (n mod 10)])"

declare toString.simps [simp del]

text \<open>
  \<open>filename.replace(/\.[^/.]+$/, '')\<close>: the pattern can only match from the last dot
  of the name, and does when at least one character follows it and none of them is a
  slash; the match is then cut off.
\<close>

definition getBaseName :: "string \<Rightarrow> string" where
  "getBaseName filename =
     (let ext = rev (takeWhile (\<lambda>c. c \<noteq> CHR ''.'') (rev filename)) in
      if length ext < length filename \<and> ext \<noteq> [] \<and> CHR ''/'' \<notin> set ext
      then take (length filename - length ext - 1) filename
      else filename)"

text \<open>
  The codec instance of one run: the files of its file system (\<open>ffmpeg.FS\<close>) and the
  argument lists of the calls of \<open>ffmpeg.run\<close> so far.
\<close>

record engine =
  fs :: "string \<rightharpoonup> bytes"
  runs :: "string list list"

definition createFFmpeg :: engine where
  "createFFmpeg = \<lparr>fs = Map.empty, runs = []\<rparr>"

text \<open>\<open>ffmpeg.FS('writeFile', ...)\<close> and \<open>ffmpeg.FS('unlink', ...)\<close> when they succeed.\<close>

definition FS_writeFile :: "string \<Rightarrow> bytes \<Rightarrow> engine \<Rightarrow> engine" where
  "FS_writeFile path content e = e\<lparr>fs := (fs e)(path \<mapsto> content)\<rparr>"

definition FS_unlink :: "string \<Rightarrow> engine \<Rightarrow> engine" where
  "FS_unlink path e = e\<lparr>fs := (fs e)(path := None)\<rparr>"

definition numParts_of :: "platform \<Rightarrow> rat \<Rightarrow> nat" where
  "numParts_of pf duration = nat \<lceil>fl pf (duration / of_nat SEGMENT_DURATION)\<rceil>"

text \<open>
  The \<open>for\<close> loop of lines 176 to 205, from counter \<open>i\<close> with the parts pushed so
  far. \<open>readFile\<close> throws when the codec left no file of that name; \<open>unlink\<close> of the
  file just read cannot.
\<close>

function segment_loop ::
  "platform \<Rightarrow> string \<Rightarrow> nat \<Rightarrow> nat \<Rightarrow> SplitFile list \<Rightarrow> session \<Rightarrow> engine
     \<Rightarrow> (thrown + SplitFile list) \<times> session \<times> engine" where
  "segment_loop pf baseName numParts i files s e =
     (if i < numParts then
        let startTime = i * SEGMENT_DURATION;
            outputName = baseName @ ''_part'' @ toString (i + 1) @ ''.mp4'';
            outputFileName = ''output_'' @ toString i @ ''.mp4'';
            s1 = s\<lparr>progressText := Splitting (i + 1) numParts\<rparr>;
            s2 = setProgress (fl pf (fl pf ((of_nat i + 1 / 2) / of_nat numParts) * 100)) s1;
            args = [''-i'', ''input.mp4'',
                    ''-ss'', toString startTime,
                    ''-t'', toString SEGMENT_DURATION,
                    ''-c'', ''copy'',
                    ''-avoid_negative_ts'', ''make_zero'',
                    outputFileName];
            ran = run pf args (fs e);
            e1 = e\<lparr>fs := snd ran, runs := runs e @ [args]\<rparr>
        in case fst ran of
             Some err \<Rightarrow> (Inl err, s2, e1)
           | None \<Rightarrow>
               (case fs e1 outputFileName of
                  None \<Rightarrow> (Inl (ErrorObj NoSuchFile), s2, e1)
                | Some data \<Rightarrow>
                    let part = \<lparr>name = outputName, partNumber = i + 1,
                                downloadUrl = None, url = Some data\<rparr>;
                        e2 = FS_unlink outputFileName e1;
                        s3 = setProgress (fl pf (fl pf (of_nat (i + 1) / of_nat numParts) * 100)) s2
                    in segment_loop pf baseName numParts (i + 1) (files @ [part]) s3 e2)
      else (Inr files, s, e))"
  by pat_completeness auto
termination
  by (relation "measure (\<lambda>(pf, baseName, numParts, i, files, s, e). numParts - i)") auto

declare segment_loop.simps [simp del]

text \<open>
  \<open>splitVideoBrowser\<close>: the part before the first \<open>await\<close>, with \<open>selectedFile\<close> and
  \<open>videoDuration\<close> of its closure; the body of the \<open>try\<close>; and the two ways out of
  it.
\<close>

datatype browser_task = NotStarted | Running File rat

definition splitVideoBrowser_start :: "session \<Rightarrow> session \<times> browser_task" where
  "splitVideoBrowser_start s =
     (case selectedFile s of
        None \<Rightarrow> (s, NotStarted)
      | Some f \<Rightarrow>
          (setProgress 0 (s\<lparr>status := Processing, progressText := ReadingFile\<rparr>),
           Running f (videoDuration s)))"

definition splitVideoBrowser_try ::
  "platform \<Rightarrow> File \<Rightarrow> rat \<Rightarrow> session \<Rightarrow> (thrown + SplitFile list) \<times> session \<times> engine" where
  "splitVideoBrowser_try pf selected duration s =
     (case load pf of
        Some err \<Rightarrow> (Inl err, s, createFFmpeg)
      | None \<Rightarrow>
          (let baseName = getBaseName (file_name selected);
               numParts = numParts_of pf duration
           in (case fetchFile pf selected of
                 Inl err \<Rightarrow> (Inl err, s, createFFmpeg)
               | Inr content \<Rightarrow>
                   (case writeFile pf ''input.mp4'' content of
                      Some err \<Rightarrow> (Inl err, s, createFFmpeg)
                    | None \<Rightarrow>
                        (let e = FS_writeFile ''input.mp4'' content createFFmpeg
                         in (case segment_loop pf baseName numParts 0 [] s e of
                               (Inl err, s', e') \<Rightarrow> (Inl err, s', e')
                             | (Inr files, s', e') \<Rightarrow>
                                 (case fs e' ''input.mp4'' of
                                    None \<Rightarrow> (Inl (ErrorObj NoSuchFile), s', e')
                                  | Some d \<Rightarrow>
                                      (Inr files, s', FS_unlink ''input.mp4'' e'))))))))"

definition splitVideoBrowser_run ::
  "platform \<Rightarrow> File \<Rightarrow> rat \<Rightarrow> session \<Rightarrow> session \<times> engine" where
  "splitVideoBrowser_run pf selected duration s =
     (case splitVideoBrowser_try pf selected duration s of
        (Inr files, s', e) \<Rightarrow> (s'\<lparr>splitFiles := files, status := Completed\<rparr>, e)
      | (Inl err, s', e) \<Rightarrow>
          (s'\<lparr>error := Some (ProcessingError (detail_of err)), status := Error\<rparr>, e))"

definition splitVideoBrowser :: "platform \<Rightarrow> session \<Rightarrow> session \<times> engine option" where
  "splitVideoBrowser pf s =
     (case splitVideoBrowser_start s of
        (s', NotStarted) \<Rightarrow> (s', None)
      | (s', Running selected duration) \<Rightarrow>
          (case splitVideoBrowser_run pf selected duration s' of
             (s'', e) \<Rightarrow> (s'', Some e)))"

section \<open>Splitting on the server\<close>

text \<open>
  What the awaited requests give back: the promise is rejected (also when the body is
  not JSON), the answer is not \<open>ok\<close>, or the body. The job id and the status object
  have the shape of the service's contract.
\<close>

datatype 'a response = Rejected thrown | NotOk | Ok 'a

record job_file =
  jf_name :: string
  jf_partNumber :: nat

record job_status =
  js_status :: string
  js_progress :: rat
  js_files :: "job_file list option"
  js_error :: "string option"

text \<open>
  \<open>splitVideoServer\<close> is cut at its suspensions: the upload, the two seconds' timer
  at the head of the \<open>while (true)\<close> loop, and the status request. The job id of the
  loop is the local constant \<open>jobId\<close>, not the reference.
\<close>

datatype server_task = Finished | AwaitUpload | AwaitTimer string | AwaitStatus string

definition splitVideoServer_start :: "session \<Rightarrow> session \<times> server_task" where
  "splitVideoServer_start s =
     (case selectedFile s of
        None \<Rightarrow> (s, Finished)
      | Some f \<Rightarrow>
          let s1 = setProgress 0 (s\<lparr>status := Processing, progressText := Uploading\<rparr>)
          in (s1\<lparr>requests := requests s1 @ [PostSplit f]\<rparr>, AwaitUpload))"

definition splitVideoServer_catch :: "thrown \<Rightarrow> session \<Rightarrow> session" where
  "splitVideoServer_catch err s =
     s\<lparr>error := Some (ServerProcessingError (detail_of err)), status := Error\<rparr>"

definition splitVideoServer_uploaded :: "string response \<Rightarrow> session \<Rightarrow> session \<times> server_task" where
  "splitVideoServer_uploaded r s =
     (case r of
        Rejected err \<Rightarrow> (splitVideoServer_catch err s, Finished)
      | NotOk \<Rightarrow> (splitVideoServer_catch (ErrorObj UploadFailed) s, Finished)
      | Ok jobId \<Rightarrow>
          (s\<lparr>currentJobId := Some jobId, progressText := ProcessingJob\<rparr>, AwaitTimer jobId))"

definition splitVideoServer_timer :: "string \<Rightarrow> session \<Rightarrow> session \<times> server_task" where
  "splitVideoServer_timer jobId s =
     (s\<lparr>requests := requests s @ [GetStatus jobId]\<rparr>, AwaitStatus jobId)"

definition downloadUrl_of :: "string \<Rightarrow> nat \<Rightarrow> string" where
  "downloadUrl_of jobId part = API_BASE_URL @ ''/download/'' @ jobId @ ''/'' @ toString part"

definition splitVideoServer_polled ::
  "string \<Rightarrow> job_status response \<Rightarrow> session \<Rightarrow> session \<times> server_task" where
  "splitVideoServer_polled jobId r s =
     (case r of
        Rejected err \<Rightarrow> (splitVideoServer_catch err s, Finished)
      | NotOk \<Rightarrow> (splitVideoServer_catch (ErrorObj StatusFetchFailed) s, Finished)
      | Ok jobStatus \<Rightarrow>
          if js_status jobStatus = ''error'' then
            (splitVideoServer_catch
               (ErrorObj (case js_error jobStatus of
                            None \<Rightarrow> JobFailed
                          | Some m \<Rightarrow> if m \<noteq> [] then Literal m else JobFailed)) s,
             Finished)
          else
            let s1 = (setProgress (js_progress jobStatus) s)
                       \<lparr>progressText := ProcessingPercent (js_progress jobStatus)\<rparr>
            in if js_status jobStatus = ''completed'' then
                 (case js_files jobStatus of
                    None \<Rightarrow> (splitVideoServer_catch (ErrorObj FilesMissing) s1, Finished)
                  | Some fls \<Rightarrow>
                      (s1\<lparr>splitFiles :=
                             map (\<lambda>f. \<lparr>name = jf_name f, partNumber = jf_partNumber f,
                                        downloadUrl = Some (downloadUrl_of jobId (jf_partNumber f)),
                                        url = None\<rparr>) fls,
                           status := Completed\<rparr>,
                       Finished))
               else (s1, AwaitTimer jobId))"

section \<open>The split action\<close>

datatype split_task = ServerTask server_task | BrowserTask browser_task

definition handleSplit :: "session \<Rightarrow> session \<times> split_task" where
  "handleSplit s =
     (if useServerProcessing s then
        (case splitVideoServer_start s of (s', t) \<Rightarrow> (s', ServerTask t))
      else
        (case splitVideoBrowser_start s of (s', t) \<Rightarrow> (s', BrowserTask t)))"

section \<open>The values of one pass of the loop\<close>

text \<open>
  What the loop body computes at counter \<open>i\<close>, named for the statements below: the
  arguments of \<open>ffmpeg.run\<close>, the name of the part (\<open>k\<close> is \<open>i + 1\<close>), and the two
  progress values of a pass of a run of \<open>n\<close> parts.
\<close>

definition transcode_args :: "nat \<Rightarrow> string list" where
  "transcode_args i =
     [''-i'', ''input.mp4'', ''-ss'', toString (i * SEGMENT_DURATION),
      ''-t'', toString SEGMENT_DURATION, ''-c'', ''copy'',
      ''-avoid_negative_ts'', ''make_zero'', ''output_'' @ toString i @ ''.mp4'']"

definition reports :: "platform \<Rightarrow> nat \<Rightarrow> nat \<Rightarrow> rat list" where
  "reports pf n i =
     [fl pf (fl pf ((of_nat i + 1 / 2) / of_nat n) * 100),
      fl pf (fl pf (of_nat (i + 1) / of_nat n) * 100)]"


section \<open>Examples\<close>

text \<open>
  A platform on which everything works: every file lasts \<open>d\<close> seconds, the codec
  leaves one byte under the name that ends its arguments, and the arithmetic is exact.
  On \<open>broken d\<close> the codec throws instead.
\<close>

definition browser :: "rat \<Rightarrow> platform" where
  "browser d = \<lparr>metadata = (\<lambda>f. Some d), load = None, fetchFile = (\<lambda>f. Inr [1, 2, 3]),
     writeFile = (\<lambda>path content. None),
     run = (\<lambda>args files. (None, files(last args \<mapsto> [7]))),
     fl = (\<lambda>x. x)\<rparr>"

definition broken :: "rat \<Rightarrow> platform" where
  "broken d = (browser d)\<lparr>run := (\<lambda>args files. (Some (ErrorObj (Literal ''boom'')), files))\<rparr>"

text \<open>The files of the scenarios A to D of the specification, and one that is no video.\<close>

definition videoA :: File where
  "videoA = \<lparr>file_name = ''base.mp4'', file_size = 50 * 1024 * 1024, file_type = ''video/mp4''\<rparr>"

definition videoB :: File where
  "videoB = \<lparr>file_name = ''big.mp4'', file_size = 400 * 1024 * 1024, file_type = ''video/mp4''\<rparr>"

definition videoC :: File where
  "videoC = \<lparr>file_name = ''short.mp4'', file_size = 10 * 1024 * 1024, file_type = ''video/mp4''\<rparr>"

definition videoD :: File where
  "videoD = \<lparr>file_name = ''huge.mp4'', file_size = 6 * 1024 * 1024 * 1024, file_type = ''video/mp4''\<rparr>"

definition textFile :: File where
  "textFile = \<lparr>file_name = ''notes.txt'', file_size = 12, file_type = ''text/plain''\<rparr>"

text \<open>The sessions after each of the videos A, B and C was picked in a fresh session.\<close>

definition readyA :: session where
  "readyA = handleFileSelect (browser 300) (Some videoA) initial"

definition readyB :: session where
  "readyB = handleFileSelect (browser 600) (Some videoB) initial"

definition readyC :: session where
  "readyC = handleFileSelect (browser 60) (Some videoC) initial"

text \<open>
  The remote run of video B: uploaded as job \<open>job1\<close> and waiting for the first poll
  (\<open>pollingB\<close>), and after the answer \<open>finished\<close> (\<open>completedB\<close>).
\<close>

definition halfway :: job_status where
  "halfway = \<lparr>js_status = ''processing'', js_progress = 50, js_files = None, js_error = None\<rparr>"

definition finished :: job_status where
  "finished = \<lparr>js_status = ''completed'', js_progress = 100,
     js_files = Some [\<lparr>jf_name = ''big_part1.mp4'', jf_partNumber = 1\<rparr>], js_error = None\<rparr>"

definition pollingB :: session where
  "pollingB = fst (splitVideoServer_uploaded (Ok ''job1'') (fst (handleSplit readyB)))"

definition completedB :: session where
  "completedB =
     fst (splitVideoServer_polled ''job1'' (Ok finished) (fst (splitVideoServer_timer ''job1'' pollingB)))"

text \<open>The codec instance a call of \<open>splitVideoBrowser\<close> leaves behind.\<close>

definition engine_after :: "session \<times> engine option \<Rightarrow> engine" where
  "engine_after r = (case snd r of Some e \<Rightarrow> e | None \<Rightarrow> createFFmpeg)"

section \<open>The loop, step by step\<close>

lemma segment_loop_done:
  "\<not> i < n \<Longrightarrow> segment_loop pf b n i files s e = (Inr files, s, e)"
  by (simp add: segment_loop.simps)

lemma segment_loop_step:
  "i < n \<Longrightarrow>
   segment_loop pf b n i files s e =
     (let args = [''-i'', ''input.mp4'', ''-ss'', toString (i * SEGMENT_DURATION),
                  ''-t'', toString SEGMENT_DURATION, ''-c'', ''copy'',
                  ''-avoid_negative_ts'', ''make_zero'', ''output_'' @ toString i @ ''.mp4''];
          s2 = setProgress (fl pf (fl pf ((of_nat i + 1 / 2) / of_nat n) * 100))
                 (s\<lparr>progressText := Splitting (i + 1) n\<rparr>);
          e1 = e\<lparr>fs := snd (run pf args (fs e)), runs := runs e @ [args]\<rparr>
      in case fst (run pf args (fs e)) of
           Some err \<Rightarrow> (Inl err, s2, e1)
         | None \<Rightarrow>
             (case fs e1 (''output_'' @ toString i @ ''.mp4'') of
                None \<Rightarrow> (Inl (ErrorObj NoSuchFile), s2, e1)
              | Some content \<Rightarrow>
                  segment_loop pf b n (i + 1)
                    (files @ [\<lparr>name = b @ ''_part'' @ toString (i + 1) @ ''.mp4'',
                               partNumber = i + 1, downloadUrl = None, url = Some content\<rparr>])
                    (setProgress (fl pf (fl pf (of_nat (i + 1) / of_nat n) * 100)) s2)
                    (FS_unlink (''output_'' @ toString i @ ''.mp4'') e1)))"
  by (subst segment_loop.simps) (simp add: Let_def split: option.split)

lemma segment_loop_runs:
  "segment_loop pf b n i files s e = (r, s', e') \<Longrightarrow> i \<le> n \<Longrightarrow>
   \<exists>k. i + k \<le> n \<and> runs e' = runs e @ map transcode_args [i..<i + k] \<and>
       (case r of Inr out \<Rightarrow> i + k = n | Inl err \<Rightarrow> True)"
proof (induction "n - i" arbitrary: i files s e)
  case 0
  then have "\<not> i < n" by simp
  with "0.prems" have "r = Inr files" "e' = e"
    by (simp_all add: segment_loop_done)
  then show ?case
    using "0.prems"(2) \<open>\<not> i < n\<close> by (intro exI [of _ 0]) simp
next
  case (Suc d)
  then have lt: "i < n" by simp
  let ?args = "transcode_args i"
  let ?out = "''output_'' @ toString i @ ''.mp4''"
  let ?e1 = "e\<lparr>fs := snd (run pf ?args (fs e)), runs := runs e @ [?args]\<rparr>"
  show ?case
  proof (cases "fst (run pf ?args (fs e))")
    case (Some err)
    with Suc.prems lt have "r = Inl err" "e' = ?e1"
      by (simp_all add: segment_loop_step transcode_args_def Let_def)
    then show ?thesis
      using lt by (intro exI [of _ 1]) simp
  next
    case None
    show ?thesis
    proof (cases "fs ?e1 ?out")
      case none: None
      with None Suc.prems lt have "r = Inl (ErrorObj NoSuchFile)" "e' = ?e1"
        by (simp_all add: segment_loop_step transcode_args_def Let_def)
      then show ?thesis
        using lt by (intro exI [of _ 1]) simp
    next
      case (Some content)
      let ?files = "files @ [\<lparr>name = b @ ''_part'' @ toString (i + 1) @ ''.mp4'',
                     partNumber = i + 1, downloadUrl = None, url = Some content\<rparr>]"
      let ?s3 = "setProgress (fl pf (fl pf (of_nat (i + 1) / of_nat n) * 100))
                   (setProgress (fl pf (fl pf ((of_nat i + 1 / 2) / of_nat n) * 100))
                      (s\<lparr>progressText := Splitting (i + 1) n\<rparr>))"
      from None Some Suc.prems lt
      have rec: "segment_loop pf b n (i + 1) ?files ?s3 (FS_unlink ?out ?e1) = (r, s', e')"
        by (simp add: segment_loop_step transcode_args_def Let_def)
      have "d = n - (i + 1)" using Suc.hyps(2) by simp
      from Suc.hyps(1) [OF this rec] lt
      obtain k where k: "i + 1 + k \<le> n"
        "runs e' = runs (FS_unlink ?out ?e1) @ map transcode_args [i + 1..<i + 1 + k]"
        "(case r of Inr out \<Rightarrow> i + 1 + k = n | Inl err \<Rightarrow> True)"
        by auto
      have "[i..<i + (k + 1)] = i # [i + 1..<i + 1 + k]"
        by (simp add: upt_conv_Cons)
      with k show ?thesis
        by (intro exI [of _ "k + 1"]) (auto simp: FS_unlink_def split: sum.splits)
    qed
  qed
qed


lemma segment_loop_progress:
  "segment_loop pf b n i files s e = (r, s', e') \<Longrightarrow>
   \<exists>m. progressLog s' = progressLog s @ take m (concat (map (reports pf n) [i..<n])) \<and>
       (case r of Inr out \<Rightarrow> progressLog s' = progressLog s @ concat (map (reports pf n) [i..<n])
                | Inl err \<Rightarrow> True)"
proof (induction "n - i" arbitrary: i files s e)
  case 0
  then have "\<not> i < n" by simp
  with "0.prems" have "r = Inr files" "s' = s"
    by (simp_all add: segment_loop_done)
  then show ?case
    using \<open>\<not> i < n\<close> by (intro exI [of _ 0]) simp
next
  case (Suc d)
  then have lt: "i < n" by simp
  let ?args = "transcode_args i"
  let ?out = "''output_'' @ toString i @ ''.mp4''"
  let ?e1 = "e\<lparr>fs := snd (run pf ?args (fs e)), runs := runs e @ [?args]\<rparr>"
  let ?s2 = "setProgress (fl pf (fl pf ((of_nat i + 1 / 2) / of_nat n) * 100))
               (s\<lparr>progressText := Splitting (i + 1) n\<rparr>)"
  have unfold: "concat (map (reports pf n) [i..<n]) =
      reports pf n i @ concat (map (reports pf n) [i + 1..<n])"
    using lt by (simp add: upt_conv_Cons)
  show ?case
  proof (cases "fst (run pf ?args (fs e)) = None \<and> fs ?e1 ?out \<noteq> None")
    case False
    with Suc.prems lt have "s' = ?s2" and "\<exists>err. r = Inl err"
      by (auto simp: segment_loop_step transcode_args_def Let_def split: option.splits)
    then show ?thesis
      unfolding unfold
      by (intro exI [of _ 1]) (auto simp: setProgress_def reports_def)
  next
    case True
    then obtain content where
      ran: "fst (run pf ?args (fs e)) = None" and got: "fs ?e1 ?out = Some content"
      by auto
    let ?files = "files @ [\<lparr>name = b @ ''_part'' @ toString (i + 1) @ ''.mp4'',
                   partNumber = i + 1, downloadUrl = None, url = Some content\<rparr>]"
    let ?s3 = "setProgress (fl pf (fl pf (of_nat (i + 1) / of_nat n) * 100)) ?s2"
    from ran got Suc.prems lt
    have rec: "segment_loop pf b n (i + 1) ?files ?s3 (FS_unlink ?out ?e1) = (r, s', e')"
      by (simp add: segment_loop_step transcode_args_def Let_def)
    have "d = n - (i + 1)" using Suc.hyps(2) by simp
    from Suc.hyps(1) [OF this rec]
    obtain m where m:
      "progressLog s' = progressLog ?s3 @ take m (concat (map (reports pf n) [i + 1..<n]))"
      "(case r of Inr out \<Rightarrow> progressLog s' = progressLog ?s3 @ concat (map (reports pf n) [i + 1..<n])
                | Inl err \<Rightarrow> True)"
      by auto
    have s3: "progressLog ?s3 = progressLog s @ reports pf n i"
      by (simp add: setProgress_def reports_def)
    have "length (reports pf n i) = 2"
      by (simp add: reports_def)
    with m(1) s3 have A: "progressLog s' =
        progressLog s @ take (m + 2) (reports pf n i @ concat (map (reports pf n) [i + 1..<n]))"
      by simp
    from m(2) s3 have B: "(case r of
          Inr out \<Rightarrow> progressLog s' =
            progressLog s @ reports pf n i @ concat (map (reports pf n) [i + 1..<n])
        | Inl err \<Rightarrow> True)"
      by (simp split: sum.splits)
    from A B show ?thesis
      unfolding unfold by blast
  qed
qed

lemma segment_loop_frame:
  "segment_loop pf b n i files s e = (r, s', e') \<Longrightarrow>
   s' = s\<lparr>progress := progress s', progressText := progressText s',
          progressLog := progressLog s'\<rparr>"
proof (induction "n - i" arbitrary: i files s e)
  case 0
  then have "\<not> i < n" by simp
  with "0.prems" show ?case
    by (simp add: segment_loop_done)
next
  case (Suc d)
  then have lt: "i < n" by simp
  let ?args = "transcode_args i"
  let ?out = "''output_'' @ toString i @ ''.mp4''"
  let ?e1 = "e\<lparr>fs := snd (run pf ?args (fs e)), runs := runs e @ [?args]\<rparr>"
  let ?s2 = "setProgress (fl pf (fl pf ((of_nat i + 1 / 2) / of_nat n) * 100))
               (s\<lparr>progressText := Splitting (i + 1) n\<rparr>)"
  show ?case
  proof (cases "fst (run pf ?args (fs e)) = None \<and> fs ?e1 ?out \<noteq> None")
    case False
    with Suc.prems lt have "s' = ?s2"
      by (auto simp: segment_loop_step transcode_args_def Let_def split: option.splits)
    then show ?thesis
      by (simp add: setProgress_def)
  next
    case True
    then obtain content where
      ran: "fst (run pf ?args (fs e)) = None" and got: "fs ?e1 ?out = Some content"
      by auto
    let ?files = "files @ [\<lparr>name = b @ ''_part'' @ toString (i + 1) @ ''.mp4'',
                   partNumber = i + 1, downloadUrl = None, url = Some content\<rparr>]"
    let ?s3 = "setProgress (fl pf (fl pf (of_nat (i + 1) / of_nat n) * 100)) ?s2"
    from ran got Suc.prems lt
    have rec: "segment_loop pf b n (i + 1) ?files ?s3 (FS_unlink ?out ?e1) = (r, s', e')"
      by (simp add: segment_loop_step transcode_args_def Let_def)
    have "d = n - (i + 1)" using Suc.hyps(2) by simp
    from Suc.hyps(1) [OF this rec]
    have "s' = ?s3\<lparr>progress := progress s', progressText := progressText s',
                  progressLog := progressLog s'\<rparr>" .
    then show ?thesis
      by (simp add: setProgress_def)
  qed
qed

lemma segment_loop_last:
  "segment_loop pf b n i files s e = (r, s', e') \<Longrightarrow>
   progressLog s \<noteq> [] \<Longrightarrow> progress s = last (progressLog s) \<Longrightarrow>
   progressLog s' \<noteq> [] \<and> progress s' = last (progressLog s')"
proof (induction "n - i" arbitrary: i files s e)
  case 0
  then have "\<not> i < n" by simp
  with "0.prems" show ?case
    by (simp add: segment_loop_done)
next
  case (Suc d)
  then have lt: "i < n" by simp
  let ?args = "transcode_args i"
  let ?out = "''output_'' @ toString i @ ''.mp4''"
  let ?e1 = "e\<lparr>fs := snd (run pf ?args (fs e)), runs := runs e @ [?args]\<rparr>"
  let ?s2 = "setProgress (fl pf (fl pf ((of_nat i + 1 / 2) / of_nat n) * 100))
               (s\<lparr>progressText := Splitting (i + 1) n\<rparr>)"
  show ?case
  proof (cases "fst (run pf ?args (fs e)) = None \<and> fs ?e1 ?out \<noteq> None")
    case False
    with Suc.prems(1) lt have "s' = ?s2"
      by (auto simp: segment_loop_step transcode_args_def Let_def split: option.splits)
    then show ?thesis
      by (simp add: setProgress_def)
  next
    case True
    then obtain content where
      ran: "fst (run pf ?args (fs e)) = None" and got: "fs ?e1 ?out = Some content"
      by auto
    let ?files = "files @ [\<lparr>name = b @ ''_part'' @ toString (i + 1) @ ''.mp4'',
                   partNumber = i + 1, downloadUrl = None, url = Some content\<rparr>]"
    let ?s3 = "setProgress (fl pf (fl pf (of_nat (i + 1) / of_nat n) * 100)) ?s2"
    from ran got Suc.prems(1) lt
    have rec: "segment_loop pf b n (i + 1) ?files ?s3 (FS_unlink ?out ?e1) = (r, s', e')"
      by (simp add: segment_loop_step transcode_args_def Let_def)
    have "d = n - (i + 1)" using Suc.hyps(2) by simp
    from Suc.hyps(1) [OF this rec] show ?thesis
      by (simp add: setProgress_def)
  qed
qed

section \<open>The ways out of a local run\<close>

lemma splitVideoBrowser_outcome:
  assumes "selectedFile s = Some f"
  shows "(\<exists>err. splitVideoBrowser pf s =
            ((setProgress 0 (s\<lparr>status := Processing, progressText := ReadingFile\<rparr>))
               \<lparr>error := Some (ProcessingError (detail_of err)), status := Error\<rparr>,
             Some createFFmpeg)) \<or>
         (\<exists>content r s1 e1.
            segment_loop pf (getBaseName (file_name f)) (numParts_of pf (videoDuration s)) 0 []
              (setProgress 0 (s\<lparr>status := Processing, progressText := ReadingFile\<rparr>))
              (FS_writeFile ''input.mp4'' content createFFmpeg) = (r, s1, e1) \<and>
            ((\<exists>files. r = Inr files \<and>
                splitVideoBrowser pf s =
                  (s1\<lparr>splitFiles := files, status := Completed\<rparr>,
                   Some (FS_unlink ''input.mp4'' e1))) \<or>
             (\<exists>err. splitVideoBrowser pf s =
                  (s1\<lparr>error := Some (ProcessingError (detail_of err)), status := Error\<rparr>,
                   Some e1))))"
proof (cases "load pf = None \<and> (\<exists>content. fetchFile pf f = Inr content \<and>
    writeFile pf ''input.mp4'' content = None)")
  case False
  then have "\<exists>err. splitVideoBrowser_try pf f (videoDuration s)
      (setProgress 0 (s\<lparr>status := Processing, progressText := ReadingFile\<rparr>)) =
      (Inl err, setProgress 0 (s\<lparr>status := Processing, progressText := ReadingFile\<rparr>),
       createFFmpeg)"
    by (auto simp: splitVideoBrowser_try_def split: option.splits sum.splits)
  with assms show ?thesis
    by (auto simp: splitVideoBrowser_def splitVideoBrowser_start_def splitVideoBrowser_run_def)
next
  case True
  then obtain content where ok: "load pf = None" "fetchFile pf f = Inr content"
    "writeFile pf ''input.mp4'' content = None"
    by auto
  let ?s0 = "setProgress 0 (s\<lparr>status := Processing, progressText := ReadingFile\<rparr>)"
  obtain r s1 e1 where loop:
    "segment_loop pf (getBaseName (file_name f)) (numParts_of pf (videoDuration s)) 0 []
       ?s0 (FS_writeFile ''input.mp4'' content createFFmpeg) = (r, s1, e1)"
    by (metis prod_cases3)
  have tried: "splitVideoBrowser_try pf f (videoDuration s) ?s0 =
      (case r of
         Inl err \<Rightarrow> (Inl err, s1, e1)
       | Inr files \<Rightarrow>
           (case fs e1 ''input.mp4'' of
              None \<Rightarrow> (Inl (ErrorObj NoSuchFile), s1, e1)
            | Some d \<Rightarrow> (Inr files, s1, FS_unlink ''input.mp4'' e1)))"
    using ok loop by (simp add: splitVideoBrowser_try_def Let_def split: sum.split)
  have whole: "splitVideoBrowser pf s =
      (case splitVideoBrowser_run pf f (videoDuration s) ?s0 of (s'', e) \<Rightarrow> (s'', Some e))"
    using assms by (simp add: splitVideoBrowser_def splitVideoBrowser_start_def)
  have "(\<exists>files. r = Inr files \<and>
           splitVideoBrowser pf s =
             (s1\<lparr>splitFiles := files, status := Completed\<rparr>, Some (FS_unlink ''input.mp4'' e1))) \<or>
        (\<exists>err. splitVideoBrowser pf s =
             (s1\<lparr>error := Some (ProcessingError (detail_of err)), status := Error\<rparr>, Some e1))"
  proof (cases r)
    case (Inl err)
    then have "splitVideoBrowser pf s =
        (s1\<lparr>error := Some (ProcessingError (detail_of err)), status := Error\<rparr>, Some e1)"
      by (simp add: whole splitVideoBrowser_run_def tried)
    then show ?thesis
      by blast
  next
    case (Inr files)
    show ?thesis
    proof (cases "fs e1 ''input.mp4''")
      case None
      with Inr have "splitVideoBrowser pf s =
          (s1\<lparr>error := Some (ProcessingError (detail_of (ErrorObj NoSuchFile))), status := Error\<rparr>,
           Some e1)"
        by (simp add: whole splitVideoBrowser_run_def tried)
      then show ?thesis
        by blast
    next
      case (Some d)
      with Inr have "splitVideoBrowser pf s =
          (s1\<lparr>splitFiles := files, status := Completed\<rparr>, Some (FS_unlink ''input.mp4'' e1))"
        by (simp add: whole splitVideoBrowser_run_def tried)
      with Inr show ?thesis
        by blast
    qed
  qed
  with loop show ?thesis
    by blast
qed

text \<open>
  A run that does not complete ends in \<open>error\<close> with the cause in the message; the
  part list is the one from before the run, and the view shows none.
\<close>

lemma failed_run_publishes_nothing:
  assumes "selectedFile s = Some f"
    and "status (fst (splitVideoBrowser pf s)) \<noteq> Completed"
  shows "status (fst (splitVideoBrowser pf s)) = Error \<and>
         splitFiles (fst (splitVideoBrowser pf s)) = splitFiles s \<and>
         shown_parts (fst (splitVideoBrowser pf s)) = [] \<and>
         (\<exists>err. error (fst (splitVideoBrowser pf s)) = Some (ProcessingError (detail_of err)))"
proof -
  let ?n = "numParts_of pf (videoDuration s)"
  let ?s0 = "setProgress 0 (s\<lparr>status := Processing, progressText := ReadingFile\<rparr>)"
  from splitVideoBrowser_outcome [OF assms(1), of pf] assms(2)
  consider (early) err where
      "splitVideoBrowser pf s =
         (?s0\<lparr>error := Some (ProcessingError (detail_of err)), status := Error\<rparr>,
          Some createFFmpeg)"
    | (failed) content r s1 e1 err where
      "segment_loop pf (getBaseName (file_name f)) ?n 0 [] ?s0
         (FS_writeFile ''input.mp4'' content createFFmpeg) = (r, s1, e1)"
      "splitVideoBrowser pf s =
         (s1\<lparr>error := Some (ProcessingError (detail_of err)), status := Error\<rparr>, Some e1)"
    by auto
  then show ?thesis
  proof cases
    case early
    then show ?thesis
      by (auto simp: setProgress_def shown_parts_def)
  next
    case failed
    from arg_cong [OF segment_loop_frame [OF failed(1)], of splitFiles]
    have "splitFiles s1 = splitFiles ?s0"
      by simp
    with failed(2) show ?thesis
      by (auto simp: setProgress_def shown_parts_def)
  qed
qed

section \<open>The progress values are ordered\<close>

lemma halves_sorted:
  "sorted (concat (map (\<lambda>k. [of_nat k + 1 / 2, of_nat k + 1 :: rat]) [i..<j])) \<and>
   (\<forall>x \<in> set (concat (map (\<lambda>k. [of_nat k + 1 / 2, of_nat k + 1 :: rat]) [i..<j])).
      0 \<le> x \<and> x \<le> of_nat j)"
proof (induction j)
  case 0
  show ?case by simp
next
  case (Suc j)
  show ?case
  proof (cases "i \<le> j")
    case True
    then have "[i..<Suc j] = [i..<j] @ [j]"
      by simp
    with Suc show ?thesis
      by (fastforce simp: sorted_append)
  next
    case False
    then show ?thesis by simp
  qed
qed

lemma reports_as_map:
  "concat (map (reports pf n) [i..<j]) =
     map (\<lambda>x. fl pf (fl pf (x / of_nat n) * 100))
       (concat (map (\<lambda>k. [of_nat k + 1 / 2, of_nat k + 1 :: rat]) [i..<j]))"
  by (induction j) (simp_all add: reports_def add.commute)

lemma mono_sorted_map:
  "mono g \<Longrightarrow> sorted xs \<Longrightarrow> sorted (map g xs)"
  by (induction xs) (auto dest: monoD)

lemma sorted_reports:
  assumes "mono (fl pf)" and "fl pf 0 = 0"
  shows "sorted (0 # concat (map (reports pf n) [0..<n]))"
proof -
  let ?g = "\<lambda>x. fl pf (fl pf (x / of_nat n) * 100)"
  let ?halves = "concat (map (\<lambda>k. [of_nat k + 1 / 2, of_nat k + 1 :: rat]) [0..<n])"
  have "mono ?g"
  proof (rule monoI)
    fix x y :: rat
    assume "x \<le> y"
    then have "x / of_nat n \<le> y / of_nat n"
      by (simp add: divide_right_mono)
    then have "fl pf (x / of_nat n) * 100 \<le> fl pf (y / of_nat n) * 100"
      using assms(1) by (simp add: monoD)
    then show "?g x \<le> ?g y"
      using assms(1) by (simp add: monoD)
  qed
  moreover have "sorted (0 # ?halves)"
    using halves_sorted [of 0 n] by simp
  ultimately have "sorted (map ?g (0 # ?halves))"
    by (rule mono_sorted_map)
  moreover have "?g 0 = 0"
    using assms(2) by simp
  ultimately show ?thesis
    by (simp add: reports_as_map)
qed

lemma last_report:
  assumes "0 < n" and "fl pf 1 = 1" and "fl pf 100 = 100"
  shows "last (concat (map (reports pf n) [0..<n])) = 100"
proof -
  from assms(1) obtain m where n: "n = Suc m"
    by (cases n) auto
  have "concat (map (reports pf n) [0..<Suc m]) =
      concat (map (reports pf n) [0..<m]) @ reports pf n m"
    by simp
  then have "last (concat (map (reports pf n) [0..<n])) = last (reports pf n m)"
    unfolding n by (simp add: reports_def)
  also have "\<dots> = fl pf (fl pf (of_nat (Suc m) / of_nat (Suc m)) * 100)"
    unfolding n by (simp add: reports_def)
  also have "of_nat (Suc m) / of_nat (Suc m) = (1::rat)"
    by simp
  finally show ?thesis
    using assms(2,3) by simp
qed

lemma numParts_positive:
  assumes "mono (fl pf)" and "fl pf 1 = 1" and "120 < d"
  shows "0 < numParts_of pf d"
proof -
  have "1 \<le> d / 120"
    using assms(3) by simp
  with assms(1) have "fl pf 1 \<le> fl pf (d / 120)"
    by (rule monoD)
  then have "0 < fl pf (d / 120)"
    using assms(2) by simp
  then show ?thesis
    by (simp add: numParts_of_def SEGMENT_DURATION_def)
qed

section \<open>The examples, evaluated\<close>

lemma browser_simps:
  "metadata (browser d) f = Some d" "load (browser d) = None"
  "fetchFile (browser d) f = Inr [1, 2, 3]" "writeFile (browser d) path content = None"
  "run (browser d) args files = (None, files(last args \<mapsto> [7]))" "fl (browser d) x = x"
  by (simp_all add: browser_def)

lemma broken_simps:
  "metadata (broken d) f = Some d" "load (broken d) = None"
  "fetchFile (broken d) f = Inr [1, 2, 3]" "writeFile (broken d) path content = None"
  "run (broken d) args files = (Some (ErrorObj (Literal ''boom'')), files)" "fl (broken d) x = x"
  by (simp_all add: broken_def browser_def)

lemmas select_defs =
  handleFileSelect_def handleFileSelect_start_def handleFileSelect_resume_def
  getVideoDuration_def startsWith_def setProgress_def SERVER_MAX_SIZE_def BROWSER_MAX_SIZE_def
  SEGMENT_DURATION_def

lemma readyA_eq:
  "readyA = \<lparr>status = Ready, error = None, warning = None, progress = 0,
     progressText = NoText, selectedFile = Some videoA, videoDuration = 300, splitFiles = [],
     useServerProcessing = False, currentJobId = None, requests = [], progressLog = [0]\<rparr>"
  by (simp add: readyA_def browser_simps videoA_def initial_def select_defs)

lemma readyA_fields:
  "selectedFile readyA = Some videoA" "videoDuration readyA = 300" "status readyA = Ready"
  "progressLog readyA = [0]"
  by (simp_all add: readyA_eq)

lemma readyB_eq:
  "readyB = \<lparr>status = Ready, error = None, warning = Some LargeFileUsingServer, progress = 0,
     progressText = NoText, selectedFile = Some videoB, videoDuration = 600, splitFiles = [],
     useServerProcessing = True, currentJobId = None, requests = [], progressLog = [0]\<rparr>"
  by (simp add: readyB_def browser_simps videoB_def initial_def select_defs)

lemma readyC_eq:
  "readyC = \<lparr>status = Ready, error = None, warning = Some NoSplitNeeded, progress = 0,
     progressText = NoText, selectedFile = Some videoC, videoDuration = 60, splitFiles = [],
     useServerProcessing = False, currentJobId = None, requests = [], progressLog = [0]\<rparr>"
  by (simp add: readyC_def browser_simps videoC_def initial_def select_defs)

lemma pollingB_eq:
  "pollingB = \<lparr>status = Processing, error = None, warning = Some LargeFileUsingServer,
     progress = 0, progressText = ProcessingJob, selectedFile = Some videoB,
     videoDuration = 600, splitFiles = [], useServerProcessing = True,
     currentJobId = Some ''job1'', requests = [PostSplit videoB], progressLog = [0, 0]\<rparr>"
  by (simp add: pollingB_def readyB_eq handleSplit_def splitVideoServer_start_def
      splitVideoServer_uploaded_def setProgress_def)

lemma toString_digits:
  "toString 0 = ''0''" "toString 1 = ''1''" "toString 2 = ''2''" "toString 3 = ''3''"
  "toString (Suc 0) = ''1''" "toString (Suc (Suc 0)) = ''2''"
  "toString (Suc (Suc (Suc 0))) = ''3''"
  "toString 60 = ''60''" "toString 120 = ''120''" "toString 240 = ''240''"
  by (simp_all add: toString.simps digit_def)

lemma completedB_eq:
  "completedB = \<lparr>status = Completed, error = None, warning = Some LargeFileUsingServer,
     progress = 100, progressText = ProcessingPercent 100, selectedFile = Some videoB,
     videoDuration = 600,
     splitFiles = [\<lparr>name = ''big_part1.mp4'', partNumber = 1,
        downloadUrl = Some ''https://video-splitter-api.onrender.com/download/job1/1'',
        url = None\<rparr>],
     useServerProcessing = True,
     currentJobId = Some ''job1'', requests = [PostSplit videoB, GetStatus ''job1''],
     progressLog = [0, 0, 100]\<rparr>"
  by (simp add: completedB_def pollingB_eq splitVideoServer_timer_def splitVideoServer_polled_def
      finished_def setProgress_def downloadUrl_of_def API_BASE_URL_def toString_digits)

lemma numParts_examples:
  "numParts_of (browser d) 300 = 3" "numParts_of (browser d) 60 = 1"
  "numParts_of (broken d) 300 = 3"
proof -
  have "\<lceil>(5::rat) / 2\<rceil> = 3" "\<lceil>(1::rat) / 2\<rceil> = 1"
    by (simp_all add: ceiling_eq_iff)
  then show "numParts_of (browser d) 300 = 3" "numParts_of (browser d) 60 = 1"
    "numParts_of (broken d) 300 = 3"
    by (simp_all add: numParts_of_def browser_simps broken_simps SEGMENT_DURATION_def)
qed

lemmas run_defs =
  splitVideoBrowser_def splitVideoBrowser_start_def splitVideoBrowser_run_def
  splitVideoBrowser_try_def setProgress_def Let_def getBaseName_def FS_writeFile_def
  FS_unlink_def createFFmpeg_def engine_after_def segment_loop_step segment_loop_done
  toString_digits SEGMENT_DURATION_def

lemma runA_session:
  "fst (splitVideoBrowser (browser 300) readyA) =
     \<lparr>status = Completed, error = None, warning = None, progress = 100,
      progressText = Splitting 3 3, selectedFile = Some videoA, videoDuration = 300,
      splitFiles =
        [\<lparr>name = ''base_part1.mp4'', partNumber = 1, downloadUrl = None, url = Some [7]\<rparr>,
         \<lparr>name = ''base_part2.mp4'', partNumber = 2, downloadUrl = None, url = Some [7]\<rparr>,
         \<lparr>name = ''base_part3.mp4'', partNumber = 3, downloadUrl = None, url = Some [7]\<rparr>],
      useServerProcessing = False, currentJobId = None, requests = [],
      progressLog = [0, 0, 50 / 3, 100 / 3, 50, 200 / 3, 250 / 3, 100]\<rparr>"
  by (simp add: readyA_eq run_defs browser_simps numParts_examples videoA_def)

lemma runA_calls:
  "runs (engine_after (splitVideoBrowser (browser 300) readyA)) =
     [[''-i'', ''input.mp4'', ''-ss'', ''0'', ''-t'', ''120'', ''-c'', ''copy'',
       ''-avoid_negative_ts'', ''make_zero'', ''output_0.mp4''],
      [''-i'', ''input.mp4'', ''-ss'', ''120'', ''-t'', ''120'', ''-c'', ''copy'',
       ''-avoid_negative_ts'', ''make_zero'', ''output_1.mp4''],
      [''-i'', ''input.mp4'', ''-ss'', ''240'', ''-t'', ''120'', ''-c'', ''copy'',
       ''-avoid_negative_ts'', ''make_zero'', ''output_2.mp4'']]"
  by (simp add: readyA_eq run_defs browser_simps numParts_examples videoA_def)

lemma short_video_is_split:
  "status (fst (splitVideoBrowser (browser 60) readyC)) = Completed \<and>
   map name (splitFiles (fst (splitVideoBrowser (browser 60) readyC))) = [''short_part1.mp4'']"
  by (simp add: readyC_eq run_defs browser_simps numParts_examples videoC_def)

lemma transcode_args_explicit:
  "transcode_args i =
     [''-i'', ''input.mp4'', ''-ss'', toString (i * 120), ''-t'', ''120'', ''-c'', ''copy'',
      ''-avoid_negative_ts'', ''make_zero'', ''output_'' @ toString i @ ''.mp4'']"
  by (simp add: transcode_args_def SEGMENT_DURATION_def toString_digits)

section \<open>The claims\<close>

text \<open>
  Claim C1. The strategy decision of \<open>handleFileSelect\<close> follows the rule order. A
  file above 5 GiB is rejected as a validation failure (by the size check, or by the
  media type check before it) with no warning, and neither the duration nor the path is
  touched, whatever the duration would have been. Otherwise, for a video whose duration
  \<open>d\<close> is known: \<open>d \<le> 120\<close> gives the warning \<open>NoSplitNeeded\<close> whatever the
  size; else a size above 300 MiB gives the server path (\<open>handleSplit\<close> starts the
  upload) with the warning \<open>LargeFileUsingServer\<close>; else the browser path with no
  warning.
\<close>

theorem strategy_rule_order:
  assumes "s' = handleFileSelect pf (Some f) s"
  shows "(file_size f > 5 * 1024 * 1024 * 1024 \<longrightarrow>
            status s' = Error \<and>
            (error s' = Some SelectVideoFile \<or> error s' = Some (FileTooLarge (file_size f))) \<and>
            warning s' = None \<and> selectedFile s' = selectedFile s \<and>
            videoDuration s' = videoDuration s \<and>
            useServerProcessing s' = useServerProcessing s) \<and>
         (startsWith (file_type f) ''video/'' \<and> file_size f \<le> 5 * 1024 * 1024 * 1024 \<and>
          metadata pf f = Some d \<longrightarrow>
            status s' = Ready \<and> error s' = None \<and> videoDuration s' = d \<and>
            (if d \<le> 120 then warning s' = Some NoSplitNeeded
             else if file_size f > 300 * 1024 * 1024 then
               warning s' = Some LargeFileUsingServer \<and> useServerProcessing s' \<and>
               snd (handleSplit s') = ServerTask AwaitUpload
             else
               warning s' = None \<and> \<not> useServerProcessing s' \<and>
               snd (handleSplit s') = BrowserTask (Running f d)))"
  using assms
  by (simp add: select_defs Let_def handleSplit_def splitVideoServer_start_def
      splitVideoBrowser_start_def)

theorem strategy_rule_order_witness:
  "file_size videoD > 5 * 1024 * 1024 * 1024 \<and>
   startsWith (file_type videoB) ''video/'' \<and> file_size videoB \<le> 5 * 1024 * 1024 * 1024 \<and>
   file_size videoB > 300 * 1024 * 1024 \<and> metadata (browser 60) videoB = Some 60 \<and>
   error (handleFileSelect (browser 60) (Some videoD) initial)
     = Some (FileTooLarge (6 * 1024 * 1024 * 1024)) \<and>
   warning (handleFileSelect (browser 60) (Some videoD) initial) = None \<and>
   warning (handleFileSelect (browser 60) (Some videoB) initial) = Some NoSplitNeeded \<and>
   snd (handleSplit (handleFileSelect (browser 600) (Some videoB) initial))
     = ServerTask AwaitUpload \<and>
   snd (handleSplit (handleFileSelect (browser 300) (Some videoA) initial))
     = BrowserTask (Running videoA 300)"
  using strategy_rule_order [where pf = "browser 60" and f = videoD and s = initial and d = 60, OF refl]
    strategy_rule_order [where pf = "browser 60" and f = videoB and s = initial and d = 60, OF refl]
    strategy_rule_order [where pf = "browser 600" and f = videoB and s = initial and d = 600, OF refl]
    strategy_rule_order [where pf = "browser 300" and f = videoA and s = initial and d = 300, OF refl]
  by (simp add: browser_simps videoA_def videoB_def videoD_def startsWith_def select_defs)

text \<open>
  Claim C2, as stated, fails. In the run of video A (300 s, three parts) the call for
  the last part, \<open>i = 2\<close>, has the duration argument \<open>120\<close>, where
  \<open>min(120, 300 - 2 * 120)\<close> is \<open>60\<close>.
\<close>

theorem duration_argument_counterexample:
  "selectedFile readyA = Some videoA \<and> videoDuration readyA = 300 \<and>
   status (fst (splitVideoBrowser (browser 300) readyA)) = Completed \<and>
   runs (engine_after (splitVideoBrowser (browser 300) readyA)) ! 2 =
     [''-i'', ''input.mp4'', ''-ss'', ''240'', ''-t'', ''120'', ''-c'', ''copy'',
      ''-avoid_negative_ts'', ''make_zero'', ''output_2.mp4''] \<and>
   toString (min 120 (300 - 2 * 120)) = ''60''"
  by (simp add: runA_session runA_calls readyA_fields toString_digits)

text \<open>
  Claim C2, amended. In every local run the calls of the transcode primitive are, in
  order, those for \<open>i = 0, 1, ...\<close>: call \<open>i\<close> has the start offset \<open>i * 120\<close>, the
  constant duration argument \<open>120\<close>, stream copy and \<open>-avoid_negative_ts make_zero\<close>.
  There are at most \<open>N\<close> calls, and exactly \<open>N\<close> in a run that completes, where \<open>N\<close> is
  the program's \<open>Math.ceil(videoDuration / 120)\<close>.
\<close>

theorem transcode_invocations:
  assumes "selectedFile s = Some f"
  shows "runs (engine_after (splitVideoBrowser pf s)) =
           map (\<lambda>i. [''-i'', ''input.mp4'', ''-ss'', toString (i * 120), ''-t'', ''120'',
                      ''-c'', ''copy'', ''-avoid_negative_ts'', ''make_zero'',
                      ''output_'' @ toString i @ ''.mp4''])
             [0..<length (runs (engine_after (splitVideoBrowser pf s)))] \<and>
         length (runs (engine_after (splitVideoBrowser pf s)))
           \<le> numParts_of pf (videoDuration s) \<and>
         (status (fst (splitVideoBrowser pf s)) = Completed \<longrightarrow>
            length (runs (engine_after (splitVideoBrowser pf s)))
              = numParts_of pf (videoDuration s))"
proof -
  let ?n = "numParts_of pf (videoDuration s)"
  let ?s0 = "setProgress 0 (s\<lparr>status := Processing, progressText := ReadingFile\<rparr>)"
  have expl: "transcode_args = (\<lambda>i. [''-i'', ''input.mp4'', ''-ss'', toString (i * 120), ''-t'', ''120'',
      ''-c'', ''copy'', ''-avoid_negative_ts'', ''make_zero'', ''output_'' @ toString i @ ''.mp4''])"
    by (rule ext) (rule transcode_args_explicit)
  from splitVideoBrowser_outcome [OF assms, of pf]
  consider (early) err where
      "splitVideoBrowser pf s =
         (?s0\<lparr>error := Some (ProcessingError (detail_of err)), status := Error\<rparr>,
          Some createFFmpeg)"
    | (finished_run) content files s1 e1 where
      "segment_loop pf (getBaseName (file_name f)) ?n 0 [] ?s0
         (FS_writeFile ''input.mp4'' content createFFmpeg) = (Inr files, s1, e1)"
      "splitVideoBrowser pf s =
         (s1\<lparr>splitFiles := files, status := Completed\<rparr>, Some (FS_unlink ''input.mp4'' e1))"
    | (failed) content r s1 e1 err where
      "segment_loop pf (getBaseName (file_name f)) ?n 0 [] ?s0
         (FS_writeFile ''input.mp4'' content createFFmpeg) = (r, s1, e1)"
      "splitVideoBrowser pf s =
         (s1\<lparr>error := Some (ProcessingError (detail_of err)), status := Error\<rparr>, Some e1)"
    by blast
  then show ?thesis
  proof cases
    case early
    then show ?thesis
      by (simp add: engine_after_def createFFmpeg_def)
  next
    case finished_run
    from segment_loop_runs [OF finished_run(1)]
    have "runs e1 = map transcode_args [0..<?n]"
      by (auto simp: FS_writeFile_def createFFmpeg_def)
    with finished_run(2) show ?thesis
      by (simp add: engine_after_def FS_unlink_def expl)
  next
    case failed
    from segment_loop_runs [OF failed(1)]
    obtain k where "k \<le> ?n" "runs e1 = map transcode_args [0..<k]"
      by (auto simp: FS_writeFile_def createFFmpeg_def)
    with failed(2) show ?thesis
      by (simp add: engine_after_def expl)
  qed
qed

theorem transcode_invocations_witness:
  "selectedFile readyA = Some videoA \<and>
   status (fst (splitVideoBrowser (browser 300) readyA)) = Completed \<and>
   length (runs (engine_after (splitVideoBrowser (browser 300) readyA))) = 3 \<and>
   runs (engine_after (splitVideoBrowser (browser 300) readyA)) ! 1 =
     [''-i'', ''input.mp4'', ''-ss'', ''120'', ''-t'', ''120'', ''-c'', ''copy'',
      ''-avoid_negative_ts'', ''make_zero'', ''output_1.mp4'']"
  using transcode_invocations [of readyA videoA "browser 300"]
  by (simp add: runA_session runA_calls readyA_fields)



text \<open>
  Claim C4, as stated, fails. In scenario C (10 MiB, 60 s, warning \<open>NoSplitNeeded\<close>)
  \<open>handleSplit\<close> is not rejected: it sets the state to \<open>processing\<close>, leaves no
  error and starts the browser path, and the run of the browser path completes with
  one part.
\<close>

theorem split_rejected_counterexample:
  "warning readyC = Some NoSplitNeeded \<and> videoDuration readyC = 60 \<and>
   status (fst (handleSplit readyC)) = Processing \<and>
   error (fst (handleSplit readyC)) = None \<and>
   snd (handleSplit readyC) = BrowserTask (Running videoC 60) \<and>
   status (fst (splitVideoBrowser (browser 60) readyC)) = Completed \<and>
   map name (splitFiles (fst (splitVideoBrowser (browser 60) readyC))) = [''short_part1.mp4'']"
  by (simp add: short_video_is_split)
    (simp add: readyC_eq handleSplit_def splitVideoBrowser_start_def setProgress_def)

text \<open>
  Claim C4, amended. When the duration is at most 120 s the split action is not offered
  (the view shows the split button only in \<open>ready\<close> with a duration above 120 s), and
  that is the only guard: \<open>handleSplit\<close> itself, whenever a file is selected, sets the
  state to \<open>processing\<close>, reports no error and starts the server or the browser path,
  whatever the duration.
\<close>

theorem split_guard_is_in_the_view:
  "(startsWith (file_type f) ''video/'' \<and> file_size f \<le> 5 * 1024 * 1024 * 1024 \<and>
    metadata pf f = Some d \<and> d \<le> 120 \<longrightarrow>
      warning (handleFileSelect pf (Some f) s) = Some NoSplitNeeded \<and>
      \<not> split_offered (handleFileSelect pf (Some f) s)) \<and>
   (videoDuration s \<le> 120 \<longrightarrow> \<not> split_offered s) \<and>
   (selectedFile s = Some f \<longrightarrow>
      status (fst (handleSplit s)) = Processing \<and>
      error (fst (handleSplit s)) = error s \<and>
      snd (handleSplit s) = (if useServerProcessing s then ServerTask AwaitUpload
                             else BrowserTask (Running f (videoDuration s))))"
  by (simp add: select_defs Let_def split_offered_def handleSplit_def splitVideoServer_start_def
      splitVideoBrowser_start_def)

theorem split_guard_is_in_the_view_witness:
  "startsWith (file_type videoC) ''video/'' \<and> file_size videoC \<le> 5 * 1024 * 1024 * 1024 \<and>
   metadata (browser 60) videoC = Some 60 \<and> videoDuration readyC \<le> 120 \<and>
   \<not> split_offered readyC \<and> warning readyC = Some NoSplitNeeded \<and>
   selectedFile readyC = Some videoC \<and> status (fst (handleSplit readyC)) = Processing \<and>
   split_offered readyA"
  using split_guard_is_in_the_view [of videoC "browser 60" 60 initial]
    split_guard_is_in_the_view [of videoC "browser 60" 60 readyC]
  by (simp add: readyC_eq readyA_eq readyC_def [symmetric] split_offered_def SEGMENT_DURATION_def
      videoC_def startsWith_def browser_simps)

text \<open>
  Claim C5, as stated, fails. After a reset during the remote run of \<open>job1\<close> the loop
  still sends the next status request when its timer fires; the answer \<open>halfway\<close>
  sets the progress of the reset session to 50 and the loop waits for its timer again;
  the answer \<open>finished\<close> publishes the parts and sets \<open>completed\<close>; a failed
  request sets \<open>error\<close>.
\<close>

theorem poll_after_reset_counterexample:
  "snd (splitVideoServer_timer ''job1'' (handleReset pollingB)) = AwaitStatus ''job1'' \<and>
   requests (fst (splitVideoServer_timer ''job1'' (handleReset pollingB)))
     = [PostSplit videoB, DeleteJob ''job1'', GetStatus ''job1''] \<and>
   progress (handleReset pollingB) = 0 \<and>
   progress (fst (splitVideoServer_polled ''job1'' (Ok halfway) (handleReset pollingB))) = 50 \<and>
   snd (splitVideoServer_polled ''job1'' (Ok halfway) (handleReset pollingB)) = AwaitTimer ''job1'' \<and>
   status (fst (splitVideoServer_polled ''job1'' (Ok finished) (handleReset pollingB))) = Completed \<and>
   map name (splitFiles (fst (splitVideoServer_polled ''job1'' (Ok finished) (handleReset pollingB))))
     = [''big_part1.mp4''] \<and>
   status (fst (splitVideoServer_polled ''job1'' NotOk (handleReset pollingB))) = Error"
  by (simp add: pollingB_eq handleReset_def splitVideoServer_timer_def splitVideoServer_polled_def
      splitVideoServer_catch_def halfway_def finished_def setProgress_def)

text \<open>
  Claim C5, amended. The poll loop has no cancellation and does not look at the
  session. In every session, in particular the one a reset or a new selection leaves,
  its timer continuation sends the status request for the job id it captured at the
  upload, and the continuation of that request applies the answer to the session: a
  rejected or failed request and a status \<open>error\<close> set the error message and the
  state \<open>error\<close>, and every other answer sets the progress and its caption; at the
  status \<open>completed\<close> the parts of the answer are published with their download
  references and the state becomes \<open>completed\<close> (or \<open>error\<close> when the answer has no
  part list); at any other status the loop waits for its timer again. The loop stops
  at a failure and at \<open>error\<close> and \<open>completed\<close>, and nowhere else.
\<close>

theorem poll_loop_ignores_session:
  "splitVideoServer_timer jobId s =
     (s\<lparr>requests := requests s @ [GetStatus jobId]\<rparr>, AwaitStatus jobId) \<and>
   splitVideoServer_polled jobId r s =
     (case r of
        Rejected err \<Rightarrow>
          (s\<lparr>error := Some (ServerProcessingError (detail_of err)), status := Error\<rparr>, Finished)
      | NotOk \<Rightarrow>
          (s\<lparr>error := Some (ServerProcessingError (Message StatusFetchFailed)), status := Error\<rparr>,
           Finished)
      | Ok jobStatus \<Rightarrow>
          if js_status jobStatus = ''error'' then
            (s\<lparr>error := Some (ServerProcessingError (Message
                   (case js_error jobStatus of
                      None \<Rightarrow> JobFailed
                    | Some m \<Rightarrow> if m = [] then JobFailed else Literal m))),
               status := Error\<rparr>,
             Finished)
          else if js_status jobStatus = ''completed'' then
            (case js_files jobStatus of
               Some fls \<Rightarrow>
                 (s\<lparr>progress := js_progress jobStatus,
                    progressLog := progressLog s @ [js_progress jobStatus],
                    progressText := ProcessingPercent (js_progress jobStatus),
                    splitFiles :=
                      map (\<lambda>f. \<lparr>name = jf_name f, partNumber = jf_partNumber f,
                                 downloadUrl = Some (API_BASE_URL @ ''/download/'' @ jobId @ ''/''
                                                       @ toString (jf_partNumber f)),
                                 url = None\<rparr>) fls,
                    status := Completed\<rparr>,
                  Finished)
             | None \<Rightarrow>
                 (s\<lparr>progress := js_progress jobStatus,
                    progressLog := progressLog s @ [js_progress jobStatus],
                    progressText := ProcessingPercent (js_progress jobStatus),
                    error := Some (ServerProcessingError (Message FilesMissing)),
                    status := Error\<rparr>,
                  Finished))
          else
            (s\<lparr>progress := js_progress jobStatus,
               progressLog := progressLog s @ [js_progress jobStatus],
               progressText := ProcessingPercent (js_progress jobStatus)\<rparr>,
             AwaitTimer jobId)) \<and>
   requests (fst (splitVideoServer_timer jobId (handleReset s)))
     = requests (handleReset s) @ [GetStatus jobId] \<and>
   snd (splitVideoServer_timer jobId (handleReset s)) = AwaitStatus jobId \<and>
   requests (fst (splitVideoServer_timer jobId (handleFileSelect pf picked s)))
     = requests (handleFileSelect pf picked s) @ [GetStatus jobId] \<and>
   snd (splitVideoServer_timer jobId (handleFileSelect pf picked s)) = AwaitStatus jobId \<and>
   (js_status jobStatus \<noteq> ''error'' \<longrightarrow>
      progress (fst (splitVideoServer_polled jobId (Ok jobStatus) (handleReset s)))
        = js_progress jobStatus \<and>
      progress (fst (splitVideoServer_polled jobId (Ok jobStatus) (handleFileSelect pf picked s)))
        = js_progress jobStatus) \<and>
   (js_status jobStatus = ''completed'' \<and> js_files jobStatus = Some fls \<longrightarrow>
      status (fst (splitVideoServer_polled jobId (Ok jobStatus) (handleReset s))) = Completed \<and>
      map name (splitFiles (fst (splitVideoServer_polled jobId (Ok jobStatus) (handleReset s))))
        = map jf_name fls \<and>
      map partNumber (splitFiles (fst (splitVideoServer_polled jobId (Ok jobStatus) (handleReset s))))
        = map jf_partNumber fls \<and>
      status (fst (splitVideoServer_polled jobId (Ok jobStatus) (handleFileSelect pf picked s)))
        = Completed \<and>
      map name (splitFiles (fst (splitVideoServer_polled jobId (Ok jobStatus)
                                   (handleFileSelect pf picked s))))
        = map jf_name fls)"
proof -
  have timer: "\<And>t. splitVideoServer_timer jobId t =
      (t\<lparr>requests := requests t @ [GetStatus jobId]\<rparr>, AwaitStatus jobId)"
    by (simp add: splitVideoServer_timer_def)
  have polled: "\<And>t r. splitVideoServer_polled jobId r t =
     (case r of
        Rejected err \<Rightarrow>
          (t\<lparr>error := Some (ServerProcessingError (detail_of err)), status := Error\<rparr>, Finished)
      | NotOk \<Rightarrow>
          (t\<lparr>error := Some (ServerProcessingError (Message StatusFetchFailed)), status := Error\<rparr>,
           Finished)
      | Ok jobStatus \<Rightarrow>
          if js_status jobStatus = ''error'' then
            (t\<lparr>error := Some (ServerProcessingError (Message
                   (case js_error jobStatus of
                      None \<Rightarrow> JobFailed
                    | Some m \<Rightarrow> if m = [] then JobFailed else Literal m))),
               status := Error\<rparr>,
             Finished)
          else if js_status jobStatus = ''completed'' then
            (case js_files jobStatus of
               Some fls \<Rightarrow>
                 (t\<lparr>progress := js_progress jobStatus,
                    progressLog := progressLog t @ [js_progress jobStatus],
                    progressText := ProcessingPercent (js_progress jobStatus),
                    splitFiles :=
                      map (\<lambda>f. \<lparr>name = jf_name f, partNumber = jf_partNumber f,
                                 downloadUrl = Some (API_BASE_URL @ ''/download/'' @ jobId @ ''/''
                                                       @ toString (jf_partNumber f)),
                                 url = None\<rparr>) fls,
                    status := Completed\<rparr>,
                  Finished)
             | None \<Rightarrow>
                 (t\<lparr>progress := js_progress jobStatus,
                    progressLog := progressLog t @ [js_progress jobStatus],
                    progressText := ProcessingPercent (js_progress jobStatus),
                    error := Some (ServerProcessingError (Message FilesMissing)),
                    status := Error\<rparr>,
                  Finished))
          else
            (t\<lparr>progress := js_progress jobStatus,
               progressLog := progressLog t @ [js_progress jobStatus],
               progressText := ProcessingPercent (js_progress jobStatus)\<rparr>,
             AwaitTimer jobId))"
    by (simp add: splitVideoServer_polled_def splitVideoServer_catch_def setProgress_def Let_def
        downloadUrl_of_def split: response.split option.split)
  show ?thesis
    apply (intro conjI)
           apply (rule timer)
          apply (rule polled)
         apply (simp add: timer)
        apply (simp add: timer)
       apply (simp add: timer)
      apply (simp add: timer)
     apply (simp add: polled split: option.split)
    apply (simp add: polled comp_def)
    done
qed

theorem poll_loop_ignores_session_witness:
  "js_status halfway \<noteq> ''error'' \<and> js_status finished = ''completed'' \<and>
   js_files finished = Some [\<lparr>jf_name = ''big_part1.mp4'', jf_partNumber = 1\<rparr>] \<and>
   snd (splitVideoServer_polled ''job1'' (Ok halfway) (handleReset pollingB)) = AwaitTimer ''job1'' \<and>
   progress (fst (splitVideoServer_polled ''job1'' (Ok halfway) (handleReset pollingB))) = 50 \<and>
   status (fst (splitVideoServer_polled ''job1'' (Ok finished) (handleReset pollingB))) = Completed \<and>
   map name (splitFiles (fst (splitVideoServer_polled ''job1'' (Ok finished) (handleReset pollingB))))
     = [''big_part1.mp4''] \<and>
   snd (splitVideoServer_polled ''job1'' (Ok finished) (handleReset pollingB)) = Finished \<and>
   requests (fst (splitVideoServer_timer ''job1''
                    (handleFileSelect (browser 300) (Some videoA) completedB)))
     = [PostSplit videoB, GetStatus ''job1'', GetStatus ''job1'']"
  using poll_loop_ignores_session
      [of "''job1''" "handleReset pollingB" "Ok halfway" "browser 300" "Some videoA" halfway]
    poll_loop_ignores_session
      [of "''job1''" "handleReset pollingB" "Ok finished" "browser 300" "Some videoA" finished
         "[\<lparr>jf_name = ''big_part1.mp4'', jf_partNumber = 1\<rparr>]"]
    poll_loop_ignores_session
      [of "''job1''" completedB "Ok finished" "browser 300" "Some videoA" finished
         "[\<lparr>jf_name = ''big_part1.mp4'', jf_partNumber = 1\<rparr>]"]
  by (simp add: halfway_def finished_def completedB_eq videoA_def select_defs browser_simps)

text \<open>
  Claim C6 at a failing input: the run of video A on a platform whose codec throws at
  the first part. The error is reported with its cause and no part is published, but
  the input written into the codec's file system is still there: the \<open>catch\<close> block
  has no \<open>unlink\<close>.
\<close>

theorem failed_run_keeps_input:
  "status (fst (splitVideoBrowser (broken 300) readyA)) = Error \<and>
   error (fst (splitVideoBrowser (broken 300) readyA))
     = Some (ProcessingError (Message (Literal ''boom''))) \<and>
   splitFiles (fst (splitVideoBrowser (broken 300) readyA)) = [] \<and>
   runs (engine_after (splitVideoBrowser (broken 300) readyA)) =
     [[''-i'', ''input.mp4'', ''-ss'', ''0'', ''-t'', ''120'', ''-c'', ''copy'',
       ''-avoid_negative_ts'', ''make_zero'', ''output_0.mp4'']] \<and>
   fs (engine_after (splitVideoBrowser (broken 300) readyA)) ''input.mp4'' = Some [1, 2, 3]"
  by (simp add: readyA_eq run_defs broken_simps numParts_examples videoA_def)

text \<open>
  Claim C7, as stated, fails. In the completed session of the remote job \<open>job1\<close>,
  picking a text file leads to \<open>error\<close> without passing \<open>loading\<close>, and picking a
  video leads to \<open>loading\<close> with no request sent: the job id is known and no DELETE
  request for it is among the requests.
\<close>

theorem select_cancels_job_counterexample:
  "status (fst (handleFileSelect_start (Some textFile) completedB)) = Error \<and>
   snd (handleFileSelect_start (Some textFile) completedB) = Returned \<and>
   currentJobId completedB = Some ''job1'' \<and>
   status (fst (handleFileSelect_start (Some videoA) completedB)) = Loading \<and>
   requests (fst (handleFileSelect_start (Some videoA) completedB)) = requests completedB \<and>
   requests (handleFileSelect (browser 300) (Some videoA) completedB) = requests completedB \<and>
   DeleteJob ''job1'' \<notin> set (requests (handleFileSelect (browser 300) (Some videoA) completedB))"
  by (simp add: completedB_eq textFile_def videoA_def select_defs browser_simps)

text \<open>
  Claim C7, amended. From every state, picking a file that passes validation (a video
  type, at most 5 GiB) puts the session in \<open>loading\<close> with that file selected, and
  the probe then leads to \<open>ready\<close> or, when it fails, to \<open>error\<close>; a file that fails
  validation puts the session in \<open>error\<close> at once.
\<close>

theorem select_restarts_at_loading:
  "(if startsWith (file_type f) ''video/'' \<and> file_size f \<le> 5 * 1024 * 1024 * 1024 then
      status (fst (handleFileSelect_start (Some f) s)) = Loading \<and>
      selectedFile (fst (handleFileSelect_start (Some f) s)) = Some f \<and>
      snd (handleFileSelect_start (Some f) s) = AwaitDuration f (file_size f > 300 * 1024 * 1024) \<and>
      status (handleFileSelect pf (Some f) s) = (if metadata pf f = None then Error else Ready)
    else
      status (fst (handleFileSelect_start (Some f) s)) = Error \<and>
      snd (handleFileSelect_start (Some f) s) = Returned \<and>
      status (handleFileSelect pf (Some f) s) = Error)"
  by (auto simp: select_defs Let_def split: option.splits)

theorem select_restarts_at_loading_witness:
  "status (fst (handleFileSelect_start (Some videoA) completedB)) = Loading \<and>
   status (handleFileSelect (browser 300) (Some videoA) completedB) = Ready \<and>
   status (handleFileSelect (browser 300) (Some textFile) completedB) = Error"
  using select_restarts_at_loading [of videoA completedB "browser 300"]
    select_restarts_at_loading [of textFile completedB "browser 300"]
  by (simp add: videoA_def textFile_def startsWith_def browser_simps)

text \<open>
  Claim C8. The progress values a local run reports, in order: they start with \<open>0\<close>
  and never decrease, whether the run completes or fails; in a run that completes they
  are \<open>0\<close> and then, for each part \<open>i\<close>, \<open>(i + 0.5) / N * 100\<close> and
  \<open>(i + 1) / N * 100\<close> as the double arithmetic computes them; and when there is at
  least one part (as there is whenever the duration is above 120 s, the only case in
  which the split action is offered) the last value, which is also the progress shown
  at completion, is exactly \<open>100\<close>. The rounding \<open>fl\<close> of the double arithmetic is
  only assumed monotone and exact at \<open>0\<close>, \<open>1\<close> and \<open>100\<close>.
\<close>

theorem progress_is_monotone:
  assumes "mono (fl pf)" and "fl pf 0 = 0" and "fl pf 1 = 1" and "fl pf 100 = 100"
    and "selectedFile s = Some f"
    and "reported = drop (length (progressLog s)) (progressLog (fst (splitVideoBrowser pf s)))"
  shows "progressLog (fst (splitVideoBrowser pf s)) = progressLog s @ reported \<and>
         hd reported = 0 \<and> sorted reported \<and>
         (status (fst (splitVideoBrowser pf s)) = Completed \<longrightarrow>
            reported =
              0 # concat (map (\<lambda>i. [fl pf (fl pf ((of_nat i + 1 / 2)
                                            / of_nat (numParts_of pf (videoDuration s))) * 100),
                                      fl pf (fl pf (of_nat (i + 1)
                                            / of_nat (numParts_of pf (videoDuration s))) * 100)])
                           [0..<numParts_of pf (videoDuration s)])) \<and>
         (status (fst (splitVideoBrowser pf s)) = Completed \<and>
          0 < numParts_of pf (videoDuration s) \<longrightarrow>
            last reported = 100 \<and> progress (fst (splitVideoBrowser pf s)) = 100) \<and>
         (120 < videoDuration s \<longrightarrow> 0 < numParts_of pf (videoDuration s))"
proof -
  let ?n = "numParts_of pf (videoDuration s)"
  let ?s0 = "setProgress 0 (s\<lparr>status := Processing, progressText := ReadingFile\<rparr>)"
  let ?full = "concat (map (reports pf ?n) [0..<?n])"
  have s0: "progressLog ?s0 = progressLog s @ [0]" "progress ?s0 = last (progressLog ?s0)"
    "progressLog ?s0 \<noteq> []"
    by (simp_all add: setProgress_def)
  have full: "sorted (0 # ?full)"
    using assms(1,2) by (rule sorted_reports)
  have positive: "120 < videoDuration s \<longrightarrow> 0 < ?n"
    using assms(1,3) by (simp add: numParts_positive)
  have expl: "reports pf ?n = (\<lambda>i. [fl pf (fl pf ((of_nat i + 1 / 2) / of_nat ?n) * 100),
      fl pf (fl pf (of_nat (i + 1) / of_nat ?n) * 100)])"
    by (rule ext) (simp add: reports_def)
  from splitVideoBrowser_outcome [OF assms(5), of pf]
  consider (early) err where
      "splitVideoBrowser pf s =
         (?s0\<lparr>error := Some (ProcessingError (detail_of err)), status := Error\<rparr>,
          Some createFFmpeg)"
    | (finished_run) content files s1 e1 where
      "segment_loop pf (getBaseName (file_name f)) ?n 0 [] ?s0
         (FS_writeFile ''input.mp4'' content createFFmpeg) = (Inr files, s1, e1)"
      "splitVideoBrowser pf s =
         (s1\<lparr>splitFiles := files, status := Completed\<rparr>, Some (FS_unlink ''input.mp4'' e1))"
    | (failed) content r s1 e1 err where
      "segment_loop pf (getBaseName (file_name f)) ?n 0 [] ?s0
         (FS_writeFile ''input.mp4'' content createFFmpeg) = (r, s1, e1)"
      "splitVideoBrowser pf s =
         (s1\<lparr>error := Some (ProcessingError (detail_of err)), status := Error\<rparr>, Some e1)"
    by blast
  then show ?thesis
  proof cases
    case early
    then have "reported = [0]"
      using assms(6) s0(1) by simp
    with early s0(1) positive show ?thesis
      by simp
  next
    case finished_run
    from segment_loop_progress [OF finished_run(1)] s0(1)
    have log: "progressLog s1 = progressLog s @ 0 # ?full"
      by auto
    then have rep: "reported = 0 # ?full"
      using assms(6) finished_run(2) by simp
    from segment_loop_last [OF finished_run(1) s0(3) s0(2)]
    have last: "progress s1 = last (progressLog s1)"
      by simp
    have "last reported = 100 \<and> progress s1 = 100" if pos: "0 < ?n"
    proof -
      from pos have "?full \<noteq> []"
        by (cases ?n) (simp_all add: reports_def)
      moreover have "last ?full = 100"
        using pos assms(3,4) by (rule last_report)
      ultimately show ?thesis
        using rep log last by simp
    qed
    with rep log full finished_run(2) positive show ?thesis
      by (simp add: expl)
  next
    case failed
    from segment_loop_progress [OF failed(1)] s0(1)
    obtain m where log: "progressLog s1 = progressLog s @ 0 # take m ?full"
      by auto
    then have rep: "reported = 0 # take m ?full"
      using assms(6) failed(2) by simp
    have "sorted (take (Suc m) (0 # ?full))"
      using full by (rule sorted_wrt_take)
    with rep log failed(2) positive show ?thesis
      by simp
  qed
qed

theorem progress_is_monotone_witness:
  "mono (fl (browser 300)) \<and> fl (browser 300) 0 = 0 \<and> fl (browser 300) 1 = 1 \<and>
   fl (browser 300) 100 = 100 \<and> selectedFile readyA = Some videoA \<and>
   status (fst (splitVideoBrowser (browser 300) readyA)) = Completed \<and>
   120 < videoDuration readyA \<and> 0 < numParts_of (browser 300) (videoDuration readyA) \<and>
   drop (length (progressLog readyA)) (progressLog (fst (splitVideoBrowser (browser 300) readyA)))
     = [0, 50 / 3, 100 / 3, 50, 200 / 3, 250 / 3, 100] \<and>
   sorted (drop (length (progressLog readyA))
             (progressLog (fst (splitVideoBrowser (browser 300) readyA)))) \<and>
   progress (fst (splitVideoBrowser (browser 300) readyA)) = 100"
proof -
  have m: "mono (fl (browser 300))"
    by (simp add: mono_def browser_simps)
  have exact: "fl (browser 300) 0 = 0" "fl (browser 300) 1 = 1" "fl (browser 300) 100 = 100"
    by (simp_all add: browser_simps)
  have sel: "selectedFile readyA = Some videoA"
    by (simp add: readyA_fields)
  have ordered: "sorted (drop (length (progressLog readyA))
      (progressLog (fst (splitVideoBrowser (browser 300) readyA))))"
    using progress_is_monotone [OF m exact sel refl] by blast
  have "drop (length (progressLog readyA))
      (progressLog (fst (splitVideoBrowser (browser 300) readyA)))
        = [0, 50 / 3, 100 / 3, 50, 200 / 3, 250 / 3, 100]"
    by (simp add: readyA_fields runA_session)
  with m exact sel ordered show ?thesis
    by (simp add: runA_session readyA_fields numParts_examples)
qed

text \<open>
  Claim C9, as stated, fails. The job \<open>job1\<close> is being polled and a status request is
  outstanding when the session is reset. The reset clears the job reference of the
  session, but the loop has the job id in its own constant: the answer \<open>halfway\<close>
  makes it wait for its timer again, and its next status request is for \<open>job1\<close>,
  after the DELETE request.
\<close>

theorem reset_keeps_loop_polling_counterexample:
  "currentJobId (handleReset (fst (splitVideoServer_timer ''job1'' pollingB))) = None \<and>
   snd (splitVideoServer_polled ''job1'' (Ok halfway)
          (handleReset (fst (splitVideoServer_timer ''job1'' pollingB)))) = AwaitTimer ''job1'' \<and>
   requests (fst (splitVideoServer_timer ''job1''
     (fst (splitVideoServer_polled ''job1'' (Ok halfway)
             (handleReset (fst (splitVideoServer_timer ''job1'' pollingB)))))))
     = [PostSplit videoB, GetStatus ''job1'', DeleteJob ''job1'', GetStatus ''job1'']"
  by (simp add: pollingB_eq handleReset_def splitVideoServer_timer_def splitVideoServer_polled_def
      halfway_def setProgress_def)

text \<open>
  Claim C9, amended. From every state, \<open>handleReset\<close> gives the idle session with no
  parts, no file, duration and progress zero, no warning and no error, and a job
  reference that is not truthy any more; when the job reference was truthy before, the
  DELETE request for that job is issued and the reference cleared. The reference is
  all the reset clears of the job: a poll loop that is still running holds the job id
  itself, and in the session the reset leaves its timer continuation sends the next
  status request for that id.
\<close>

theorem reset_returns_to_idle:
  "handleReset s =
     \<lparr>status = Idle, error = None, warning = None, progress = 0, progressText = NoText,
      selectedFile = None, videoDuration = 0, splitFiles = [],
      useServerProcessing = useServerProcessing s,
      currentJobId = (if truthy (currentJobId s) then None else currentJobId s),
      requests = requests s @ (case currentJobId s of
                                 None \<Rightarrow> []
                               | Some j \<Rightarrow> if truthy (Some j) then [DeleteJob j] else []),
      progressLog = progressLog s @ [0]\<rparr> \<and>
   \<not> truthy (currentJobId (handleReset s)) \<and>
   splitVideoServer_timer jobId (handleReset s) =
     ((handleReset s)\<lparr>requests := requests (handleReset s) @ [GetStatus jobId]\<rparr>,
      AwaitStatus jobId)"
proof -
  have "handleReset s =
     \<lparr>status = Idle, error = None, warning = None, progress = 0, progressText = NoText,
      selectedFile = None, videoDuration = 0, splitFiles = [],
      useServerProcessing = useServerProcessing s,
      currentJobId = (if truthy (currentJobId s) then None else currentJobId s),
      requests = requests s @ (case currentJobId s of
                                 None \<Rightarrow> []
                               | Some j \<Rightarrow> if truthy (Some j) then [DeleteJob j] else []),
      progressLog = progressLog s @ [0]\<rparr> \<and>
   \<not> truthy (currentJobId (handleReset s))"
    by (cases s) (auto simp: handleReset_def truthy_def setProgress_def split: option.splits)
  moreover have "splitVideoServer_timer jobId (handleReset s) =
     ((handleReset s)\<lparr>requests := requests (handleReset s) @ [GetStatus jobId]\<rparr>,
      AwaitStatus jobId)"
    by (simp add: splitVideoServer_timer_def)
  ultimately show ?thesis
    by blast
qed

theorem reset_returns_to_idle_witness:
  "truthy (currentJobId completedB) \<and>
   handleReset completedB = initial\<lparr>useServerProcessing := True,
     requests := [PostSplit videoB, GetStatus ''job1'', DeleteJob ''job1''],
     progressLog := [0, 0, 100, 0]\<rparr> \<and>
   handleReset readyA = initial\<lparr>progressLog := [0, 0]\<rparr> \<and>
   requests (fst (splitVideoServer_timer ''job1'' (handleReset completedB)))
     = [PostSplit videoB, GetStatus ''job1'', DeleteJob ''job1'', GetStatus ''job1'']"
  using reset_returns_to_idle [of completedB "''job1''"] reset_returns_to_idle [of readyA "''job1''"]
  by (simp add: completedB_eq readyA_eq initial_def truthy_def handleReset_def setProgress_def
      splitVideoServer_timer_def)

text \<open>
  Claim C10. When the picked file fails validation (its type does not start with
  \<open>video/\<close>, or it is larger than 5 GiB), the handler sets the error message and
  the status after it cleared error, warning, part list and progress, and nothing
  else: the file selected before and its duration stay in the session.
\<close>

theorem rejected_file_frame:
  assumes "\<not> startsWith (file_type f) ''video/'' \<or> file_size f > 5 * 1024 * 1024 * 1024"
  shows "handleFileSelect pf (Some f) s =
           s\<lparr>error := Some (if \<not> startsWith (file_type f) ''video/'' then SelectVideoFile
                              else FileTooLarge (file_size f)),
             warning := None, splitFiles := [], progress := 0,
             progressLog := progressLog s @ [0], status := Error\<rparr> \<and>
         selectedFile (handleFileSelect pf (Some f) s) = selectedFile s \<and>
         videoDuration (handleFileSelect pf (Some f) s) = videoDuration s"
  using assms
  by (auto simp: handleFileSelect_def handleFileSelect_start_def setProgress_def
      SERVER_MAX_SIZE_def)

theorem rejected_file_frame_witness:
  "\<not> startsWith (file_type textFile) ''video/'' \<and>
   file_size videoD > 5 * 1024 * 1024 * 1024 \<and>
   handleFileSelect (browser 60) (Some textFile) readyA =
     readyA\<lparr>error := Some SelectVideoFile, progressLog := [0, 0], status := Error\<rparr> \<and>
   selectedFile (handleFileSelect (browser 60) (Some videoD) readyA) = Some videoA \<and>
   videoDuration (handleFileSelect (browser 60) (Some videoD) readyA) = 300 \<and>
   error (handleFileSelect (browser 60) (Some videoD) readyA)
     = Some (FileTooLarge (6 * 1024 * 1024 * 1024))"
  using rejected_file_frame [of textFile "browser 60" readyA]
    rejected_file_frame [of videoD "browser 60" readyA]
  by (simp add: readyA_eq textFile_def videoD_def startsWith_def)

end
